theory Spec2Isabelle
  imports Main
begin

section \<open>Text primitives\<close>

text \<open>
  Console text is a \<open>string\<close>; positions are indices into it, the way a text cursor of the
  toolkit counts them (a line break is one position). Characters are the code points
  0..255. \<open>isspace\<close> is Python's \<open>str.isspace\<close> on that range: TAB, LF, VT, FF, CR,
  0x1C..0x1F, SPACE, 0x85 and 0xA0. \<open>strip\<close> is Python's \<open>str.strip()\<close>.
\<close>

definition newline :: char where
  "newline = CHR 0x0A"

definition isspace :: "char \<Rightarrow> bool" where
  "isspace ch = (of_char ch \<in> set [9, 10, 11, 12, 13, 28, 29, 30, 31, 32, 133, 160 :: nat])"

definition strip :: "string \<Rightarrow> string" where
  "strip s = rev (dropWhile isspace (rev (dropWhile isspace s)))"

text \<open>
  What the toolkit's \<open>QTextCursor.insertText\<close> puts into the document for a text: a
  carriage return followed by a line feed becomes one line break, and so does a carriage
  return alone; every other character of the range is kept.
\<close>

definition carriage_return :: char where
  "carriage_return = CHR 0x0D"

fun document_text :: "string \<Rightarrow> string" where
  "document_text [] = []"
| "document_text [a] = (if a = carriage_return then [newline] else [a])"
| "document_text (a # b # s) =
     (if a = carriage_return \<and> b = newline then newline # document_text s
      else if a = carriage_return then newline # document_text (b # s)
      else a # document_text (b # s))"

text \<open>
  The characters a key press inserts into an editable widget: those the toolkit's
  \<open>QChar.isPrint\<close> accepts (on this range every character but the control characters
  0x00..0x1F and 0x7F..0x9F and the soft hyphen 0xAD), and TAB.
\<close>

definition tab :: char where
  "tab = CHR 0x09"

definition isprint :: "char \<Rightarrow> bool" where
  "isprint ch =
     (let n = (of_char ch :: nat)
      in (32 \<le> n \<and> n \<le> 126) \<or> (160 \<le> n \<and> n \<le> 255 \<and> n \<noteq> 173))"

text \<open>
  \<open>MoveOperation.StartOfLine\<close> and \<open>MoveOperation.EndOfLine\<close> from position \<open>p\<close>; the
  console sets \<open>LineWrapMode.NoWrap\<close>, so a line is the text between two line breaks.
\<close>

definition start_of_line :: "string \<Rightarrow> nat \<Rightarrow> nat" where
  "start_of_line buf p = p - length (takeWhile (\<lambda>ch. ch \<noteq> newline) (rev (take p buf)))"

definition end_of_line :: "string \<Rightarrow> nat \<Rightarrow> nat" where
  "end_of_line buf p = p + length (takeWhile (\<lambda>ch. ch \<noteq> newline) (drop p buf))"

definition remove_range :: "nat \<Rightarrow> nat \<Rightarrow> string \<Rightarrow> string" where
  "remove_range s e buf = take s buf @ drop e buf"

definition insert_at :: "nat \<Rightarrow> string \<Rightarrow> string \<Rightarrow> string" where
  "insert_at p s buf = take p buf @ s @ drop p buf"

text \<open>
  Reading a list at an integer index the way Python does: \<open>xs[i]\<close> with \<open>i\<close> from
  \<open>-len(xs)\<close> up to \<open>-1\<close> reads from the end, and outside \<open>-len(xs) .. len(xs)-1\<close> the
  read raises \<open>IndexError\<close>.
\<close>

datatype error = IndexError

definition py_index :: "'a list \<Rightarrow> int \<Rightarrow> error + 'a" where
  "py_index xs i =
     (if 0 \<le> i \<and> i < int (length xs) then Inr (xs ! nat i)
      else if - int (length xs) \<le> i \<and> i < 0 then Inr (xs ! nat (int (length xs) + i))
      else Inl IndexError)"

section \<open>InteractiveConsole\<close>

text \<open>
  The state of an \<open>InteractiveConsole\<close>: the widget's document text, the position of its
  text cursor and its read-only flag, and the attributes the class adds. The signal
  \<open>command_entered\<close> is the list of the commands emitted so far, oldest first.
  The cursor carries no selection: the key events modelled below (keys without modifiers)
  never create one.
\<close>

record console =
  buffer :: string
  cursor :: nat
  read_only :: bool
  prompt :: string
  current_line_start_pos :: nat
  history :: "string list"
  history_index :: int
  command_entered :: "string list"

datatype key =
    Key_Up | Key_Down | Key_Return | Key_Enter
  | Key_Backspace | Key_Delete | Key_Left | Key_Right | Key_Home | Key_End
  | Key_Text char
  | Key_Other

text \<open>
  \<open>appendPlainText\<close> (the override of the class): a cursor is moved to the end of the
  document, inserts the text there with \<open>insertText\<close> and becomes the widget's cursor.
\<close>

definition appendPlainText :: "string \<Rightarrow> console \<Rightarrow> console" where
  "appendPlainText s c =
     c\<lparr>buffer := buffer c @ document_text s,
       cursor := length (buffer c @ document_text s)\<rparr>"

text \<open>\<open>insertPlainText\<close> of the widget: the text goes in at the widget's cursor, which ends after it.\<close>

definition insertPlainText :: "string \<Rightarrow> console \<Rightarrow> console" where
  "insertPlainText s c =
     c\<lparr>buffer := insert_at (cursor c) (document_text s) (buffer c),
       cursor := cursor c + length (document_text s)\<rparr>"

definition setPrompt :: "string \<Rightarrow> console \<Rightarrow> console" where
  "setPrompt new_prompt c =
     (let c1 = c\<lparr>prompt := new_prompt\<rparr>;
          c2 = c1\<lparr>current_line_start_pos := cursor c1 + length (prompt c1)\<rparr>;
          c3 = appendPlainText (prompt c2) c2
      in c3\<lparr>cursor := length (buffer c3)\<rparr>)"

text \<open>
  The text of the line the cursor is on, as \<open>_handle_command_entry\<close> selects it:
  \<open>StartOfLine\<close>, then \<open>EndOfLine\<close> keeping the anchor, then \<open>selectedText()\<close>.
\<close>

definition selected_line :: "console \<Rightarrow> string" where
  "selected_line c =
     (let s = start_of_line (buffer c) (cursor c);
          e = end_of_line (buffer c) s
      in take (e - s) (drop s (buffer c)))"

definition entered_command :: "console \<Rightarrow> string" where
  "entered_command c = strip (drop (length (prompt c)) (strip (selected_line c)))"

definition handle_command_entry :: "console \<Rightarrow> console" where
  "handle_command_entry c =
     (let command = entered_command c;
          c1 = (if command \<noteq> []
                then (if history c = [] \<or> hd (history c) \<noteq> command
                      then c\<lparr>history := command # history c\<rparr> else c)
                else c);
          c2 = c1\<lparr>history_index := - 1\<rparr>;
          c3 = appendPlainText [newline] c2;
          c4 = c3\<lparr>command_entered := command_entered c3 @ [command]\<rparr>
      in setPrompt (prompt c4) c4)"

text \<open>
  \<open>_handle_history_navigation\<close>. The line of the cursor is selected and removed, which
  leaves the widget's cursor at the start of the line; the prompt is inserted there and the
  widget's cursor moves with it; the history entry, if any, is inserted at the widget's
  cursor.
\<close>

definition handle_history_navigation :: "key \<Rightarrow> console \<Rightarrow> error + console" where
  "handle_history_navigation k c =
     (if history c = [] then Inr c
      else
        let c1 = (if k = Key_Up
                  then (if history_index c < int (length (history c)) - 1
                        then c\<lparr>history_index := history_index c + 1\<rparr> else c)
                  else if k = Key_Down
                  then (if history_index c > 0
                        then c\<lparr>history_index := history_index c - 1\<rparr>
                        else c\<lparr>history_index := - 1\<rparr>)
                  else c);
            s = start_of_line (buffer c1) (cursor c1);
            e = end_of_line (buffer c1) s;
            c2 = c1\<lparr>buffer := remove_range s e (buffer c1), cursor := s\<rparr>;
            c3 = c2\<lparr>buffer := insert_at s (document_text (prompt c2)) (buffer c2),
                    cursor := s + length (document_text (prompt c2))\<rparr>
        in if history_index c3 \<noteq> - 1
           then (case py_index (history c3) (history_index c3) of
                   Inl err \<Rightarrow> Inl err
                 | Inr h \<Rightarrow> Inr (insertPlainText h c3))
           else Inr c3)"

text \<open>
  The base class's \<open>keyPressEvent\<close>, which the console calls for every other key. It is the
  toolkit's, not the repository's; this is its documented behaviour for the keys of
  \<open>key\<close> without modifiers and without a selection. A key with a text inserts it when
  its character is printable or TAB and does nothing otherwise. A read-only widget neither
  edits nor moves its cursor on a key.
\<close>

definition QPlainTextEdit_keyPressEvent :: "key \<Rightarrow> console \<Rightarrow> console" where
  "QPlainTextEdit_keyPressEvent k c =
     (if read_only c then c
      else case k of
        Key_Text ch \<Rightarrow> (if isprint ch \<or> ch = tab then insertPlainText [ch] c else c)
      | Key_Backspace \<Rightarrow>
          (if 0 < cursor c
           then c\<lparr>buffer := remove_range (cursor c - 1) (cursor c) (buffer c),
                  cursor := cursor c - 1\<rparr>
           else c)
      | Key_Delete \<Rightarrow> c\<lparr>buffer := remove_range (cursor c) (cursor c + 1) (buffer c)\<rparr>
      | Key_Left \<Rightarrow> c\<lparr>cursor := cursor c - 1\<rparr>
      | Key_Right \<Rightarrow> c\<lparr>cursor := min (cursor c + 1) (length (buffer c))\<rparr>
      | Key_Home \<Rightarrow> c\<lparr>cursor := start_of_line (buffer c) (cursor c)\<rparr>
      | Key_End \<Rightarrow> c\<lparr>cursor := end_of_line (buffer c) (cursor c)\<rparr>
      | _ \<Rightarrow> c)"

text \<open>
  The first step of \<open>keyPressEvent\<close>: a cursor before \<open>current_line_start_pos\<close> is put at
  \<open>characterCount() - 1\<close>, the end of the document.
\<close>

definition restrict_cursor :: "console \<Rightarrow> console" where
  "restrict_cursor c =
     (if cursor c < current_line_start_pos c then c\<lparr>cursor := length (buffer c)\<rparr> else c)"

definition keyPressEvent :: "key \<Rightarrow> console \<Rightarrow> error + console" where
  "keyPressEvent k c =
     (let c1 = restrict_cursor c
      in if k \<in> set [Key_Up, Key_Down] then handle_history_navigation k c1
         else if k = Key_Return \<or> k = Key_Enter then Inr (handle_command_entry c1)
         else Inr (QPlainTextEdit_keyPressEvent k c1))"

text \<open>A sequence of key events; an exception ends it.\<close>

fun press_keys :: "key list \<Rightarrow> console \<Rightarrow> error + console" where
  "press_keys [] c = Inr c"
| "press_keys (k # ks) c =
     (case keyPressEvent k c of Inl err \<Rightarrow> Inl err | Inr c' \<Rightarrow> press_keys ks c')"

text \<open>
  A new widget, and the console after \<open>__init__\<close>: read-only, with the prompt \<open>>>> \<close>
  issued and an empty history.
\<close>

definition new_widget :: console where
  "new_widget = \<lparr>buffer = [], cursor = 0, read_only = False, prompt = [],
     current_line_start_pos = 0, history = [], history_index = - 1, command_entered = []\<rparr>"

definition console_init :: console where
  "console_init =
     (let c1 = new_widget\<lparr>read_only := True\<rparr>;
          c2 = c1\<lparr>prompt := ''>>> ''\<rparr>;
          c3 = setPrompt (prompt c2) c2
      in c3\<lparr>history := [], history_index := - 1\<rparr>)"

text \<open>
  What \<open>_run_with_debugger\<close> does to the console before the script starts:
  \<open>setReadOnly(False)\<close>, \<open>clear()\<close>, \<open>setPrompt("(pdb) ")\<close>.
\<close>

definition clear :: "console \<Rightarrow> console" where
  "clear c = c\<lparr>buffer := [], cursor := 0\<rparr>"

definition debugger_console :: "console \<Rightarrow> console" where
  "debugger_console c = setPrompt ''(pdb) '' (clear (c\<lparr>read_only := False\<rparr>))"

text \<open>
  The positions at which a key is handled where the cursor stands: those the first step of
  \<open>keyPressEvent\<close> leaves alone.
\<close>

definition editable_pos :: "console \<Rightarrow> nat \<Rightarrow> bool" where
  "editable_pos c p = (current_line_start_pos c \<le> p \<and> p \<le> length (buffer c))"

section \<open>ScriptRunner.run_script\<close>

text \<open>
  The runner's observable state: the texts emitted on \<open>output_signal\<close> and on
  \<open>error_signal\<close>, and the processes started (program and arguments). The file system
  (\<open>QFileInfo(file_path).exists()\<close>) and \<open>sys.executable\<close> are parameters.
\<close>

record runner =
  output_signal :: "string list"
  error_signal :: "string list"
  started :: "(string \<times> string list) list"

fun join :: "string \<Rightarrow> string list \<Rightarrow> string" where
  "join sep [] = []"
| "join sep [x] = x"
| "join sep (x # y # ys) = x @ sep @ join sep (y # ys)"

definition run_script ::
  "(string \<Rightarrow> bool) \<Rightarrow> string \<Rightarrow> string \<Rightarrow> string list option \<Rightarrow> bool \<Rightarrow> runner \<Rightarrow> runner" where
  "run_script file_exists executable file_path args debugger r =
     (if \<not> file_exists file_path
      then r\<lparr>error_signal := error_signal r @ [''Error: File not found at '' @ [CHR 0x27] @ file_path @ [CHR 0x27]]\<rparr>
      else
        let command = [executable];
            command = (if debugger then command @ [''-m'', ''pdb''] else command);
            command = command @ [file_path];
            command = (case args of
                         None \<Rightarrow> command
                       | Some xs \<Rightarrow> (if xs \<noteq> [] then command @ xs else command));
            r1 = r\<lparr>output_signal := output_signal r @
                    [[newline] @ ''[Running script: '' @ join '' '' command @ '']'' @ [newline]]\<rparr>
        in r1\<lparr>started := started r1 @ [(hd command, tl command)]\<rparr>)"

section \<open>Recent files\<close>


section \<open>Auxiliary definitions\<close>

text \<open>Python's \<open>str.lstrip()\<close> and \<open>str.rstrip()\<close>, the two halves of \<open>strip\<close>.\<close>

definition lstrip :: "string \<Rightarrow> string" where
  "lstrip s = dropWhile isspace s"

definition rstrip :: "string \<Rightarrow> string" where
  "rstrip s = rev (dropWhile isspace (rev s))"

text \<open>
  The text before \<open>current_line_start_pos\<close> is the same in two states of the console, and
  the prompt stands at the start of the cursor's line and ends at
  \<open>current_line_start_pos\<close>, as it does after \<open>setPrompt\<close> on a fresh line.
\<close>

definition prefix_unchanged :: "console \<Rightarrow> console \<Rightarrow> bool" where
  "prefix_unchanged c c' =
     (take (current_line_start_pos c) (buffer c') = take (current_line_start_pos c) (buffer c))"

definition prompt_in_place :: "console \<Rightarrow> bool" where
  "prompt_in_place c =
     (let s = start_of_line (buffer c) (cursor (restrict_cursor c))
      in s + length (prompt c) = current_line_start_pos c \<and>
         take (length (prompt c)) (drop s (buffer c)) = document_text (prompt c))"

text \<open>
  The console shows an input line: the prompt, free of carriage returns, starts a line and
  ends at \<open>current_line_start_pos\<close>, and no line break follows it; the cursor is inside
  the buffer.
\<close>

definition input_line :: "console \<Rightarrow> bool" where
  "input_line c =
     (let n = length (prompt c); l = current_line_start_pos c
      in n \<le> l \<and> l \<le> length (buffer c) \<and> cursor c \<le> length (buffer c) \<and>
         carriage_return \<notin> set (prompt c) \<and>
         take n (drop (l - n) (buffer c)) = prompt c \<and>
         newline \<notin> set (drop (l - n) (buffer c)) \<and>
         (l = n \<or> buffer c ! (l - n - 1) = newline))"

section \<open>Example states\<close>

text \<open>
  A console with one history entry; an editable console in which \<open>  ls  \<close> has been typed
  after the prompt; a console whose prompt begins with a blank, with \<open>ls\<close> after it.
\<close>

definition foo_console :: console where
  "foo_console = console_init\<lparr>history := [''foo'']\<rparr>"

definition ls_console :: console where
  "ls_console = console_init\<lparr>read_only := False, buffer := ''>>>   ls  '', cursor := 10\<rparr>"

definition blank_prompt_console :: console where
  "blank_prompt_console = appendPlainText ''ls'' (setPrompt '' > '' new_widget)"

text \<open>
  The console after \<open>_run_current_script\<close> has cleared it and a script has run and
  finished, and the same console after Return there and a second run of the script.
\<close>

definition finished_console :: console where
  "finished_console =
     appendPlainText ([newline] @ ''[Script finished with exit code 0]'')
       (appendPlainText ([newline] @ ''[Running script: python a.py]'' @ [newline])
         (clear console_init))"

definition rerun_console :: console where
  "rerun_console =
     appendPlainText ([newline] @ ''[Script finished with exit code 0]'')
       (appendPlainText ([newline] @ ''[Running script: python a.py]'' @ [newline])
         (clear (handle_command_entry finished_console)))"

text \<open>
  The debugger console once \<open>run_script\<close> has announced the script, and the same after
  Return on its empty last line.
\<close>

definition pdb_console :: console where
  "pdb_console =
     appendPlainText ([newline] @ ''[Running script: python -m pdb a.py]'' @ [newline])
       (debugger_console console_init)"

definition pdb_prompt_console :: console where
  "pdb_prompt_console =
     \<lparr>buffer = ''(pdb) '' @ [newline] @ ''[Running script: python -m pdb a.py]'' @ [newline]
                   @ [newline] @ ''(pdb) '',
      cursor = 51, read_only = False, prompt = ''(pdb) '', current_line_start_pos = 51,
      history = [], history_index = - 1, command_entered = [[]]\<rparr>"

text \<open>
  The debugger console of a second run, after \<open>continue\<close> was entered at the prompt of
  the first: the history is kept from one run to the next.
\<close>

definition pdb_second_run :: console where
  "pdb_second_run =
     appendPlainText ([newline] @ ''[Running script: python -m pdb a.py]'' @ [newline])
       (debugger_console
         (handle_command_entry (appendPlainText ''continue'' pdb_prompt_console)))"

text \<open>
  A debugger session: the debugger has printed where it stopped and its own prompt; then
  \<open>next\<close> was entered on that line and the debugger has printed the next stop and its
  prompt after the console's new prompt.
\<close>

definition pdb_waiting :: console where
  "pdb_waiting =
     appendPlainText
       (''> a.py(1)<module>()'' @ [newline] @ ''-> x = 1'' @ [newline] @ ''(Pdb) '')
       pdb_console"

definition pdb_session :: console where
  "pdb_session =
     appendPlainText
       (''> a.py(2)<module>()'' @ [newline] @ ''-> y = 2'' @ [newline] @ ''(Pdb) '')
       (handle_command_entry (appendPlainText ''next'' pdb_waiting))"

section \<open>Stripping whitespace\<close>

lemma strip_lstrip_rstrip: "strip s = rstrip (lstrip s)"
  by (simp add: strip_def lstrip_def rstrip_def)

lemma rstrip_Cons:
  "rstrip (x # xs) = (if rstrip xs = [] \<and> isspace x then [] else x # rstrip xs)"
  by (auto simp: rstrip_def dropWhile_append)

lemma lstrip_rstrip_commute: "lstrip (rstrip s) = rstrip (lstrip s)"
proof (induction s)
  case Nil
  show ?case by (simp add: lstrip_def rstrip_def)
next
  case (Cons x xs)
  show ?case
  proof (cases "isspace x")
    case True
    then have "rstrip (lstrip (x # xs)) = lstrip (rstrip xs)"
      using Cons.IH by (simp add: lstrip_def)
    moreover have "lstrip (rstrip (x # xs)) = lstrip (rstrip xs)"
      using True by (simp add: rstrip_Cons lstrip_def)
    ultimately show ?thesis by simp
  next
    case False
    then show ?thesis by (simp add: rstrip_Cons lstrip_def)
  qed
qed

lemma rstrip_idem: "rstrip (rstrip s) = rstrip s"
  by (simp add: rstrip_def)

lemma lstrip_idem: "lstrip (lstrip s) = lstrip s"
  by (simp add: lstrip_def)

lemma strip_idem: "strip (strip s) = strip s"
  by (simp add: strip_lstrip_rstrip lstrip_rstrip_commute lstrip_idem rstrip_idem)

lemma strip_rstrip: "strip (rstrip s) = strip s"
  by (simp add: strip_lstrip_rstrip lstrip_rstrip_commute rstrip_idem)

lemma lstrip_hd: "lstrip s \<noteq> [] \<Longrightarrow> \<not> isspace (hd (lstrip s))"
  unfolding lstrip_def by (rule hd_dropWhile)

lemma rstrip_last: "rstrip s \<noteq> [] \<Longrightarrow> \<not> isspace (last (rstrip s))"
  unfolding rstrip_def using hd_dropWhile [of isspace "rev s"] by (simp add: last_rev)

lemma strip_ends:
  assumes "strip s \<noteq> []"
  shows "\<not> isspace (hd (strip s)) \<and> \<not> isspace (last (strip s))"
proof -
  have "strip s = lstrip (rstrip s)"
    by (simp add: strip_lstrip_rstrip lstrip_rstrip_commute)
  then have "\<not> isspace (hd (strip s))" using assms lstrip_hd by metis
  moreover have "\<not> isspace (last (strip s))"
    using assms rstrip_last by (simp add: strip_lstrip_rstrip)
  ultimately show ?thesis by simp
qed

lemma strip_prompt_line:
  assumes "p = [] \<or> \<not> isspace (hd p)"
  shows "strip (drop (length p) (strip (p @ t))) = strip t"
proof (cases "p = []")
  case True
  then show ?thesis by (simp add: strip_idem)
next
  case False
  with assms have hd: "\<not> isspace (hd p)" by simp
  have l: "lstrip (p @ t) = p @ t"
    using False hd by (cases p) (simp_all add: lstrip_def)
  show ?thesis
  proof (cases "\<forall>x\<in>set t. isspace x")
    case True
    have r: "rstrip (p @ t) = rstrip p"
      using True dropWhile_append2 [of "rev t" isspace "rev p"] by (simp add: rstrip_def)
    have len: "length (rstrip p) \<le> length p"
      using length_dropWhile_le [of isspace "rev p"] by (simp add: rstrip_def)
    have d: "dropWhile isspace t = []"
      using True by (induction t) simp_all
    have e: "strip t = []"
      unfolding strip_def d by simp
    have "strip (p @ t) = rstrip p"
      by (simp add: strip_lstrip_rstrip l r)
    then have "drop (length p) (strip (p @ t)) = []"
      using len by simp
    then show ?thesis
      unfolding e by (simp add: strip_def)
  next
    case False
    then obtain x where "x \<in> set (rev t)" "\<not> isspace x" by auto
    then have "rstrip (p @ t) = p @ rstrip t"
      using dropWhile_append1 [of x "rev t" isspace "rev p"] by (simp add: rstrip_def)
    then show ?thesis
      by (simp add: strip_lstrip_rstrip l) (simp add: strip_lstrip_rstrip [symmetric] strip_rstrip)
  qed
qed

section \<open>Lines of the buffer\<close>

lemma takeWhile_dropWhile_Nil: "takeWhile P (dropWhile P xs) = []"
  by (induction xs) simp_all

lemma start_of_line_le: "start_of_line b p \<le> p"
  by (simp add: start_of_line_def)

lemma end_of_line_ge: "s \<le> end_of_line b s"
  by (simp add: end_of_line_def)

lemma end_of_line_le: "s \<le> length b \<Longrightarrow> end_of_line b s \<le> length b"
  using length_takeWhile_le [of "\<lambda>ch. ch \<noteq> newline" "drop s b"]
  by (simp add: end_of_line_def)

lemma rev_take_diff:
  "length xs = p \<Longrightarrow> k \<le> p \<Longrightarrow> rev (take (p - k) xs) = drop k (rev xs)"
  by (simp add: rev_take)

lemma before_start_of_line:
  assumes "p \<le> length b"
  shows "takeWhile (\<lambda>ch. ch \<noteq> newline) (rev (take (start_of_line b p) b)) = []"
proof -
  let ?Q = "\<lambda>ch. ch \<noteq> newline"
  let ?r = "rev (take p b)"
  let ?k = "length (takeWhile ?Q ?r)"
  have lr: "length ?r = p" using assms by simp
  have k: "?k \<le> p" using length_takeWhile_le [of ?Q ?r] lr by simp
  have s: "start_of_line b p = p - ?k" by (simp add: start_of_line_def)
  have "take (p - ?k) b = take (p - ?k) (take p b)" by (simp add: min_def)
  then have "rev (take (start_of_line b p) b) = drop ?k ?r"
    using rev_take_diff [of "take p b" p ?k] k lr unfolding s by simp
  also have "\<dots> = dropWhile ?Q ?r" by (simp add: dropWhile_eq_drop)
  finally show ?thesis by (simp add: takeWhile_dropWhile_Nil)
qed

lemma after_end_of_line:
  "takeWhile (\<lambda>ch. ch \<noteq> newline) (drop (end_of_line b s) b) = []"
proof -
  let ?Q = "\<lambda>ch. ch \<noteq> newline"
  have "drop (end_of_line b s) b = drop (length (takeWhile ?Q (drop s b))) (drop s b)"
    by (simp add: end_of_line_def add.commute)
  also have "\<dots> = dropWhile ?Q (drop s b)" by (simp add: dropWhile_eq_drop)
  finally show ?thesis by (simp add: takeWhile_dropWhile_Nil)
qed

lemma line_of_replaced:
  assumes pre: "takeWhile (\<lambda>ch. ch \<noteq> newline) (rev pre) = []"
    and post: "takeWhile (\<lambda>ch. ch \<noteq> newline) post = []"
    and mid: "newline \<notin> set mid"
  shows "start_of_line (pre @ mid @ post) (length pre + length mid) = length pre"
    and "end_of_line (pre @ mid @ post) (length pre) = length pre + length mid"
proof -
  let ?Q = "\<lambda>ch. ch \<noteq> newline"
  have all: "\<forall>x\<in>set mid. ?Q x" using mid by auto
  have "takeWhile ?Q (rev mid @ rev pre) = rev mid @ takeWhile ?Q (rev pre)"
    by (rule takeWhile_append2) (use all in simp)
  then show "start_of_line (pre @ mid @ post) (length pre + length mid) = length pre"
    using pre by (simp add: start_of_line_def)
  have "takeWhile ?Q (mid @ post) = mid @ takeWhile ?Q post"
    by (rule takeWhile_append2) (use all in simp)
  then show "end_of_line (pre @ mid @ post) (length pre) = length pre + length mid"
    using post by (simp add: end_of_line_def)
qed

section \<open>Text as the document holds it\<close>

lemma document_text_id:
  "carriage_return \<notin> set s \<Longrightarrow> document_text s = s"
  by (induction s rule: document_text.induct) auto

lemma length_document_text: "length (document_text s) \<le> length s"
  by (induction s rule: document_text.induct) auto

lemma document_text_newline: "document_text [newline] = [newline]"
  by (simp add: newline_def carriage_return_def)

lemma printable_not_carriage_return:
  "isprint ch \<or> ch = tab \<Longrightarrow> ch \<noteq> carriage_return"
  by (auto simp: isprint_def tab_def carriage_return_def Let_def)

lemma document_text_printable:
  "isprint ch \<or> ch = tab \<Longrightarrow> document_text [ch] = [ch]"
  using printable_not_carriage_return [of ch] by simp

section \<open>Fields of the console after each operation\<close>

lemma setPrompt_fields:
  "buffer (setPrompt t c) = buffer c @ document_text t"
  "cursor (setPrompt t c) = length (buffer c) + length (document_text t)"
  "prompt (setPrompt t c) = t"
  "current_line_start_pos (setPrompt t c) = cursor c + length t"
  "read_only (setPrompt t c) = read_only c"
  "history (setPrompt t c) = history c"
  "history_index (setPrompt t c) = history_index c"
  "command_entered (setPrompt t c) = command_entered c"
  by (simp_all add: setPrompt_def appendPlainText_def Let_def)

lemma handle_command_entry_fields:
  "buffer (handle_command_entry c) = buffer c @ [newline] @ document_text (prompt c)"
  "cursor (handle_command_entry c) = length (buffer c) + 1 + length (document_text (prompt c))"
  "prompt (handle_command_entry c) = prompt c"
  "current_line_start_pos (handle_command_entry c) = length (buffer c) + 1 + length (prompt c)"
  "read_only (handle_command_entry c) = read_only c"
  "history_index (handle_command_entry c) = - 1"
  "command_entered (handle_command_entry c) = command_entered c @ [entered_command c]"
  by (simp_all add: handle_command_entry_def setPrompt_fields appendPlainText_def Let_def
      document_text_newline)

lemma handle_command_entry_history:
  "history (handle_command_entry c) =
     (if entered_command c \<noteq> [] \<and> (history c = [] \<or> hd (history c) \<noteq> entered_command c)
      then entered_command c # history c else history c)"
  by (simp add: handle_command_entry_def setPrompt_fields appendPlainText_def Let_def)

lemma restrict_cursor_fields:
  "buffer (restrict_cursor c) = buffer c"
  "prompt (restrict_cursor c) = prompt c"
  "current_line_start_pos (restrict_cursor c) = current_line_start_pos c"
  "read_only (restrict_cursor c) = read_only c"
  "history (restrict_cursor c) = history c"
  "history_index (restrict_cursor c) = history_index c"
  "command_entered (restrict_cursor c) = command_entered c"
  by (simp_all add: restrict_cursor_def)

lemma keyPressEvent_enter:
  "k = Key_Return \<or> k = Key_Enter \<Longrightarrow>
     keyPressEvent k c = Inr (handle_command_entry (restrict_cursor c))"
  by (auto simp: keyPressEvent_def Let_def)

lemma keyPressEvent_nav:
  "k = Key_Up \<or> k = Key_Down \<Longrightarrow>
     keyPressEvent k c = handle_history_navigation k (restrict_cursor c)"
  by (auto simp: keyPressEvent_def Let_def)

lemma keyPressEvent_other:
  "k \<notin> {Key_Up, Key_Down, Key_Return, Key_Enter} \<Longrightarrow>
     keyPressEvent k c = Inr (QPlainTextEdit_keyPressEvent k (restrict_cursor c))"
  by (auto simp: keyPressEvent_def Let_def)

lemma restrict_cursor_range:
  assumes "cursor c \<le> length (buffer c)" "current_line_start_pos c \<le> length (buffer c)"
  shows "current_line_start_pos c \<le> cursor (restrict_cursor c)"
    and "cursor (restrict_cursor c) \<le> length (buffer c)"
  using assms by (auto simp: restrict_cursor_def)

lemma handle_history_navigation_history:
  "handle_history_navigation k c = Inr c' \<Longrightarrow> history c' = history c"
  by (auto simp: handle_history_navigation_def Let_def insertPlainText_def
      split: if_splits sum.splits)

lemma QPlainTextEdit_keyPressEvent_history:
  "history (QPlainTextEdit_keyPressEvent k c) = history c"
  by (cases k) (simp_all add: QPlainTextEdit_keyPressEvent_def insertPlainText_def)

lemma keyPressEvent_history:
  assumes "keyPressEvent k c = Inr c'"
  shows "history c' = history c \<or>
         (entered_command (restrict_cursor c) \<noteq> [] \<and>
          history c' = entered_command (restrict_cursor c) # history c)"
proof -
  consider "k = Key_Up \<or> k = Key_Down" | "k = Key_Return \<or> k = Key_Enter"
    | "k \<notin> {Key_Up, Key_Down, Key_Return, Key_Enter}" by auto
  then show ?thesis
  proof cases
    case 1
    then show ?thesis
      using assms handle_history_navigation_history [of k "restrict_cursor c" c']
      by (simp add: keyPressEvent_nav restrict_cursor_fields)
  next
    case 2
    then show ?thesis
      using assms
      by (auto simp: keyPressEvent_enter handle_command_entry_history restrict_cursor_fields)
  next
    case 3
    then show ?thesis
      using assms
      by (auto simp: keyPressEvent_other QPlainTextEdit_keyPressEvent_history restrict_cursor_fields)
  qed
qed

lemma key_text_appends:
  assumes "\<not> read_only c" "cursor c = length (buffer c)" "current_line_start_pos c \<le> cursor c"
    and "isprint ch \<or> ch = tab"
  shows "keyPressEvent (Key_Text ch) c =
           Inr (c\<lparr>buffer := buffer c @ [ch], cursor := length (buffer c) + 1\<rparr>)"
  using assms document_text_printable [of ch]
  by (simp add: keyPressEvent_def restrict_cursor_def QPlainTextEdit_keyPressEvent_def
      insertPlainText_def insert_at_def Let_def)

lemma typing_appends:
  assumes "\<not> read_only c" "cursor c = length (buffer c)" "current_line_start_pos c \<le> cursor c"
    and "\<forall>ch\<in>set us. isprint ch \<or> ch = tab"
  shows "press_keys (map Key_Text us) c =
           Inr (c\<lparr>buffer := buffer c @ us, cursor := length (buffer c) + length us\<rparr>)"
  using assms
proof (induction us arbitrary: c)
  case Nil
  then show ?case by simp
next
  case (Cons u us)
  let ?c1 = "c\<lparr>buffer := buffer c @ [u], cursor := length (buffer c) + 1\<rparr>"
  have 1: "keyPressEvent (Key_Text u) c = Inr ?c1"
    using Cons.prems by (intro key_text_appends) simp_all
  have "press_keys (map Key_Text us) ?c1 =
          Inr (?c1\<lparr>buffer := buffer ?c1 @ us, cursor := length (buffer ?c1) + length us\<rparr>)"
    using Cons.prems by (intro Cons.IH) simp_all
  then show ?case using 1 by simp
qed

lemma ls_console_typed:
  "press_keys (map Key_Text ''  ls  '') (console_init\<lparr>read_only := False\<rparr>) = Inr ls_console"
  by code_simp

section \<open>The prompt\<close>

text \<open>
  Claim C2, as stated, fails. After \<open>setPrompt(">>> ")\<close> on an empty console, position 0
  lies in the claimed interval from the end of the buffer at the call (0) to that end plus
  the length of the prompt (4), but a cursor there is not left where it is: the recorded
  \<open>current_line_start_pos\<close> is 4, after the prompt, not the end of the buffer at the call.
  With the cursor in the middle of the buffer at the call, the recorded position (cursor
  plus length of the prompt) is not the end of the buffer after the call either.
\<close>

theorem setPrompt_interval_counterexample:
  "\<not> (editable_pos (setPrompt ''>>> '' new_widget) 0 \<longleftrightarrow>
        length (buffer new_widget) \<le> 0 \<and> 0 < length (buffer new_widget) + length ''>>> '') \<and>
   current_line_start_pos (setPrompt ''>>> '' new_widget) \<noteq> length (buffer new_widget) \<and>
   current_line_start_pos (setPrompt ''>>> '' (new_widget\<lparr>buffer := ''abcdefgh'', cursor := 2\<rparr>))
     \<noteq> length (buffer (setPrompt ''>>> '' (new_widget\<lparr>buffer := ''abcdefgh'', cursor := 2\<rparr>)))"
  by code_simp

text \<open>
  Claim C2, amended. \<open>setPrompt\<close> appends the prompt to the buffer (as the document holds
  it: a carriage return in it becomes a line break), records \<open>current_line_start_pos\<close> as
  the cursor position at the call plus the length of the prompt, and leaves the cursor at
  the end of the buffer. When the cursor was at the end of the buffer at the call (as at
  every call in the program) and the prompt has no carriage return, the prompt occupies the
  interval from the old end to the old end plus its length, \<open>current_line_start_pos\<close> is
  the new end of the buffer and the cursor is there; the editable region starts at that
  position, is empty at first, and in an editable console grows by the printable characters
  and tabs the user types.
\<close>

theorem setPrompt_correct:
  "buffer (setPrompt t c) = buffer c @ document_text t \<and>
   prompt (setPrompt t c) = t \<and>
   current_line_start_pos (setPrompt t c) = cursor c + length t \<and>
   cursor (setPrompt t c) = length (buffer c) + length (document_text t) \<and>
   cursor (setPrompt t c) = length (buffer (setPrompt t c)) \<and>
   (carriage_return \<notin> set t \<longrightarrow> buffer (setPrompt t c) = buffer c @ t) \<and>
   (cursor c = length (buffer c) \<and> carriage_return \<notin> set t \<longrightarrow>
      current_line_start_pos (setPrompt t c) = length (buffer c) + length t \<and>
      current_line_start_pos (setPrompt t c) = length (buffer (setPrompt t c)) \<and>
      cursor (setPrompt t c) = current_line_start_pos (setPrompt t c) \<and>
      take (length t) (drop (length (buffer c)) (buffer (setPrompt t c))) = t \<and>
      (\<forall>p. editable_pos (setPrompt t c) p \<longleftrightarrow> p = length (buffer c) + length t) \<and>
      (\<not> read_only c \<and> (\<forall>ch\<in>set us. isprint ch \<or> ch = tab) \<longrightarrow>
         (\<exists>c'. press_keys (map Key_Text us) (setPrompt t c) = Inr c' \<and>
               buffer c' = buffer c @ t @ us \<and>
               current_line_start_pos c' = length (buffer c) + length t \<and>
               (\<forall>p. editable_pos c' p \<longleftrightarrow>
                  length (buffer c) + length t \<le> p \<and>
                  p \<le> length (buffer c) + length t + length us))))"
proof -
  have typed: "\<exists>c'. press_keys (map Key_Text us) (setPrompt t c) = Inr c' \<and>
               buffer c' = buffer c @ t @ us \<and>
               current_line_start_pos c' = length (buffer c) + length t \<and>
               (\<forall>p. editable_pos c' p \<longleftrightarrow>
                  length (buffer c) + length t \<le> p \<and>
                  p \<le> length (buffer c) + length t + length us)"
    if e: "cursor c = length (buffer c)" and d: "document_text t = t"
      and r: "\<not> read_only c" and u: "\<forall>ch\<in>set us. isprint ch \<or> ch = tab"
  proof -
    let ?c = "setPrompt t c"
    have "press_keys (map Key_Text us) ?c =
            Inr (?c\<lparr>buffer := buffer ?c @ us, cursor := length (buffer ?c) + length us\<rparr>)"
      using e r u by (intro typing_appends) (simp_all add: setPrompt_fields d)
    then show ?thesis
      using e by (auto simp: setPrompt_fields editable_pos_def d)
  qed
  have at_end: "\<forall>p. editable_pos (setPrompt t c) p \<longleftrightarrow> p = length (buffer c) + length t"
    if e: "cursor c = length (buffer c)" and d: "document_text t = t"
    using e by (auto simp: setPrompt_fields editable_pos_def d)
  show ?thesis
  proof (cases "carriage_return \<in> set t")
    case True
    then show ?thesis by (simp add: setPrompt_fields)
  next
    case False
    then have d: "document_text t = t" by (rule document_text_id)
    show ?thesis
      using False typed [OF _ d] at_end [OF _ d] by (simp add: setPrompt_fields d)
  qed
qed

theorem setPrompt_correct_witness:
  "cursor new_widget = length (buffer new_widget) \<and> carriage_return \<notin> set ''>>> '' \<and>
   \<not> read_only new_widget \<and>
   isprint CHR ''l'' \<and> isprint CHR ''s'' \<and>
   buffer (setPrompt ''>>> '' new_widget) = ''>>> '' \<and>
   current_line_start_pos (setPrompt ''>>> '' new_widget) = 4 \<and>
   cursor (setPrompt ''>>> '' new_widget) = 4 \<and>
   (\<exists>c'. press_keys (map Key_Text ''ls'') (setPrompt ''>>> '' new_widget) = Inr c' \<and>
         buffer c' = ''>>> ls'' \<and> current_line_start_pos c' = 4 \<and>
         (\<forall>p. editable_pos c' p \<longleftrightarrow> 4 \<le> p \<and> p \<le> 6))"
proof -
  let ?c = "setPrompt ''>>> '' new_widget"
  have n: "cursor new_widget = length (buffer new_widget)" "\<not> read_only new_widget"
    by (simp_all add: new_widget_def)
  have e: "buffer new_widget = []" "cursor new_widget = 0"
    by (simp_all add: new_widget_def)
  have p: "carriage_return \<notin> set ''>>> ''" "isprint CHR ''l''" "isprint CHR ''s''"
    by code_simp+
  have u: "\<forall>ch\<in>set ''ls''. isprint ch \<or> ch = tab"
    using p by simp
  note w = setPrompt_correct [of "''>>> ''" new_widget "''ls''"]
  have b: "buffer ?c = buffer new_widget @ ''>>> ''"
    using w p(1) by blast
  have l: "current_line_start_pos ?c = length (buffer new_widget) + length ''>>> ''"
    using w n(1) p(1) by blast
  have cu: "cursor ?c = current_line_start_pos ?c"
    using w n(1) p(1) by blast
  have "\<exists>c'. press_keys (map Key_Text ''ls'') ?c = Inr c' \<and>
          buffer c' = buffer new_widget @ ''>>> '' @ ''ls'' \<and>
          current_line_start_pos c' = length (buffer new_widget) + length ''>>> '' \<and>
          (\<forall>p. editable_pos c' p \<longleftrightarrow>
             length (buffer new_widget) + length ''>>> '' \<le> p \<and>
             p \<le> length (buffer new_widget) + length ''>>> '' + length ''ls'')"
    using w n p(1) u by blast
  then obtain c' where c': "press_keys (map Key_Text ''ls'') ?c = Inr c'"
    "buffer c' = ''>>> ls''" "current_line_start_pos c' = 4"
    "\<forall>p. editable_pos c' p \<longleftrightarrow> 4 \<le> p \<and> p \<le> 6"
    by (auto simp: e eval_nat_numeral)
  show ?thesis
    using n p b l cu c' by (auto simp: e)
qed

section \<open>The cursor before the input line\<close>

text \<open>
  Claim C7. When the cursor is before \<open>current_line_start_pos\<close>, the handler first puts
  it at the end of the buffer: the event has the effect it has with the cursor at the end.
  In an editable console a typed printable character or tab is therefore appended to the
  buffer, and a key with any other character only leaves the cursor at the end.
\<close>

theorem cursor_forced_to_end:
  assumes "cursor c < current_line_start_pos c"
  shows "restrict_cursor c = c\<lparr>cursor := length (buffer c)\<rparr> \<and>
         keyPressEvent k c = keyPressEvent k (c\<lparr>cursor := length (buffer c)\<rparr>) \<and>
         (\<not> read_only c \<longrightarrow>
            keyPressEvent (Key_Text ch) c =
              Inr (if isprint ch \<or> ch = tab
                   then c\<lparr>buffer := buffer c @ [ch], cursor := length (buffer c) + 1\<rparr>
                   else c\<lparr>cursor := length (buffer c)\<rparr>))"
proof -
  have r: "restrict_cursor c = c\<lparr>cursor := length (buffer c)\<rparr>"
    using assms by (simp add: restrict_cursor_def)
  have i: "restrict_cursor (c\<lparr>cursor := length (buffer c)\<rparr>) = c\<lparr>cursor := length (buffer c)\<rparr>"
    by (simp add: restrict_cursor_def)
  have k: "keyPressEvent k c = keyPressEvent k (c\<lparr>cursor := length (buffer c)\<rparr>)"
    unfolding keyPressEvent_def r i ..
  have t: "keyPressEvent (Key_Text ch) c =
      Inr (if isprint ch \<or> ch = tab
           then c\<lparr>buffer := buffer c @ [ch], cursor := length (buffer c) + 1\<rparr>
           else c\<lparr>cursor := length (buffer c)\<rparr>)" if "\<not> read_only c"
    using that document_text_printable [of ch]
    by (simp add: keyPressEvent_def r QPlainTextEdit_keyPressEvent_def insertPlainText_def
        insert_at_def Let_def)
  show ?thesis using r k t by blast
qed

theorem cursor_forced_to_end_witness:
  "cursor (ls_console\<lparr>cursor := 2\<rparr>) < current_line_start_pos (ls_console\<lparr>cursor := 2\<rparr>) \<and>
   \<not> read_only (ls_console\<lparr>cursor := 2\<rparr>) \<and>
   restrict_cursor (ls_console\<lparr>cursor := 2\<rparr>) = ls_console\<lparr>cursor := length ''>>>   ls  ''\<rparr> \<and>
   keyPressEvent (Key_Text CHR ''x'') (ls_console\<lparr>cursor := 2\<rparr>) =
     Inr (ls_console\<lparr>buffer := ''>>>   ls  x'', cursor := length ''>>>   ls  x''\<rparr>)"
proof -
  have f: "current_line_start_pos ls_console = 4" "\<not> read_only ls_console"
    "buffer ls_console = ''>>>   ls  ''" "isprint CHR ''x''"
    by code_simp+
  let ?c = "ls_console\<lparr>cursor := 2\<rparr>"
  have h: "cursor ?c < current_line_start_pos ?c" by (simp add: f)
  from cursor_forced_to_end [OF h, of "Key_Text CHR ''x''" "CHR ''x''"]
  have 1: "restrict_cursor ?c = ?c\<lparr>cursor := length (buffer ?c)\<rparr>"
    and 2: "\<not> read_only ?c \<longrightarrow> keyPressEvent (Key_Text CHR ''x'') ?c =
              Inr (if isprint CHR ''x'' \<or> CHR ''x'' = tab
                   then ?c\<lparr>buffer := buffer ?c @ [CHR ''x''], cursor := length (buffer ?c) + 1\<rparr>
                   else ?c\<lparr>cursor := length (buffer ?c)\<rparr>)"
    by blast+
  show ?thesis
    using h 1 2 by (simp add: f)
qed

section \<open>Enter\<close>

lemma input_line_bounds:
  assumes il: "input_line c"
    and p: "current_line_start_pos c - length (prompt c) \<le> p" "p \<le> length (buffer c)"
  shows "start_of_line (buffer c) p = current_line_start_pos c - length (prompt c)"
    and "end_of_line (buffer c) (current_line_start_pos c - length (prompt c)) = length (buffer c)"
proof -
  let ?Q = "\<lambda>ch. ch \<noteq> newline"
  let ?b = "buffer c"
  define s0 where "s0 = current_line_start_pos c - length (prompt c)"
  let ?pre = "take s0 ?b" and ?rest = "drop s0 ?b"
  have s0: "s0 \<le> length ?b" and nl: "newline \<notin> set ?rest"
    and st: "current_line_start_pos c = length (prompt c) \<or> ?b ! (s0 - 1) = newline"
    and nL: "length (prompt c) \<le> current_line_start_pos c"
    using il unfolding input_line_def s0_def by (auto simp: Let_def)
  have pre: "takeWhile ?Q (rev ?pre) = []"
  proof (cases "s0 = 0")
    case True
    then show ?thesis by simp
  next
    case False
    then have "?b ! (s0 - 1) = newline" using st nL unfolding s0_def by auto
    moreover have ne: "?pre \<noteq> []" using False s0 by auto
    moreover have "last ?pre = ?b ! (s0 - 1)"
    proof -
      have "last ?pre = ?pre ! (length ?pre - 1)"
        using ne by (rule last_conv_nth)
      also have "\<dots> = ?pre ! (s0 - 1)" using s0 by simp
      also have "\<dots> = ?b ! (s0 - 1)" using False by simp
      finally show ?thesis .
    qed
    ultimately have "hd (rev ?pre) = newline" "rev ?pre \<noteq> []"
      by (simp_all add: hd_rev)
    then show ?thesis by (cases "rev ?pre") simp_all
  qed
  have tp: "take p ?b = ?pre @ take (p - s0) ?rest"
  proof -
    have "take p ?b = take p (?pre @ ?rest)" by simp
    also have "\<dots> = ?pre @ take (p - s0) ?rest"
      using p(1) s0 unfolding s0_def [symmetric] by (simp only: take_append) simp
    finally show ?thesis .
  qed
  have allr: "\<forall>x\<in>set (rev (take (p - s0) ?rest)). ?Q x"
    using nl by (auto dest: in_set_takeD)
  have "takeWhile ?Q (rev (take p ?b)) = rev (take (p - s0) ?rest) @ takeWhile ?Q (rev ?pre)"
    unfolding tp rev_append by (rule takeWhile_append2) (use allr in blast)
  then have "length (takeWhile ?Q (rev (take p ?b))) = p - s0"
    using pre p(2) by simp
  then show "start_of_line ?b p = current_line_start_pos c - length (prompt c)"
    using p(1) unfolding s0_def [symmetric] by (simp add: start_of_line_def)
  have tw: "takeWhile ?Q ?rest = ?rest"
    using nl by (auto simp: takeWhile_eq_all_conv)
  have "end_of_line ?b s0 = s0 + length ?rest"
    unfolding end_of_line_def tw ..
  then show "end_of_line ?b (current_line_start_pos c - length (prompt c)) = length ?b"
    using s0 unfolding s0_def [symmetric] by simp
qed

lemma input_line_restricted:
  assumes "input_line c"
  shows "current_line_start_pos c - length (prompt c) \<le> cursor (restrict_cursor c)"
    and "cursor (restrict_cursor c) \<le> length (buffer c)"
  using assms by (auto simp: input_line_def restrict_cursor_def Let_def)

lemma input_line_selected:
  assumes il: "input_line c"
  shows "selected_line (restrict_cursor c) =
           prompt c @ drop (current_line_start_pos c) (buffer c)"
proof -
  let ?g = "restrict_cursor c"
  let ?s0 = "current_line_start_pos c - length (prompt c)"
  note r = input_line_restricted [OF il]
  have 1: "start_of_line (buffer c) (cursor ?g) = ?s0"
    and 2: "end_of_line (buffer c) ?s0 = length (buffer c)"
    using input_line_bounds [OF il r] by simp_all
  have n: "length (prompt c) \<le> current_line_start_pos c"
    and t: "take (length (prompt c)) (drop ?s0 (buffer c)) = prompt c"
    using il by (simp_all add: input_line_def Let_def)
  have "drop ?s0 (buffer c) =
          take (length (prompt c)) (drop ?s0 (buffer c)) @
          drop (length (prompt c)) (drop ?s0 (buffer c))"
    by (rule append_take_drop_id [symmetric])
  also have "\<dots> = prompt c @ drop (length (prompt c)) (drop ?s0 (buffer c))"
    by (simp only: t)
  also have "\<dots> = prompt c @ drop (current_line_start_pos c) (buffer c)"
    using n by simp
  finally have d: "drop ?s0 (buffer c) = prompt c @ drop (current_line_start_pos c) (buffer c)" .
  have "selected_line ?g = take (length (buffer c) - ?s0) (drop ?s0 (buffer c))"
    by (simp add: selected_line_def restrict_cursor_fields 1 2 Let_def)
  also have "\<dots> = drop ?s0 (buffer c)" by simp
  finally show ?thesis using d by simp
qed

text \<open>
  On an input line whose prompt does not begin with whitespace, Return and Enter do what
  claims C3 and C6 say of the text from \<open>current_line_start_pos\<close> to the end of the
  buffer: its stripped form is emitted, and is put in front of the history unless it is
  empty or equal to the head.
\<close>

lemma enter_on_input_line:
  assumes il: "input_line c"
    and pr: "prompt c = [] \<or> \<not> isspace (hd (prompt c))"
    and k: "k = Key_Return \<or> k = Key_Enter"
  shows "\<exists>c'. keyPressEvent k c = Inr c' \<and>
           (let command = strip (drop (current_line_start_pos c) (buffer c))
            in command_entered c' = command_entered c @ [command] \<and>
               history c' =
                 (if command \<noteq> [] \<and> (history c = [] \<or> hd (history c) \<noteq> command)
                  then command # history c else history c) \<and>
               history_index c' = - 1)"
proof -
  have "entered_command (restrict_cursor c) =
          strip (drop (current_line_start_pos c) (buffer c))"
    using strip_prompt_line [OF pr]
    by (simp add: entered_command_def input_line_selected [OF il] restrict_cursor_fields)
  then show ?thesis
    using k
    by (simp add: keyPressEvent_enter handle_command_entry_fields handle_command_entry_history
        restrict_cursor_fields Let_def)
qed

lemma input_line_examples:
  "input_line console_init" "input_line foo_console" "input_line ls_console"
  "input_line pdb_prompt_console"
  "\<not> input_line finished_console" "\<not> input_line rerun_console"
  "\<not> input_line pdb_session"
  "\<not> input_line (pdb_console\<lparr>buffer := buffer pdb_console @ ''n'', cursor := 45\<rparr>)"
  by code_simp+

text \<open>
  Claim C3 does not hold of the code. The handler takes the line the cursor is on, strips
  it and cuts \<open>len(prompt)\<close> characters off, whether the line begins with the prompt or not
  (its comments: "trim the prompt", "Add the command to history if it's not empty"). On the
  first line of the debugger console, which has no prompt, the line \<open>n\<close> is not empty and
  the history is empty, yet Return stores nothing; the line \<open>continue\<close> is stored as
  \<open>ue\<close>; and in a second run, where \<open>continue\<close> entered at a prompt of the first run is
  the head of the history, Return on the line \<open>continue\<close> makes the history one longer.
\<close>

theorem enter_on_line_without_prompt:
  "press_keys (map Key_Text ''n'') pdb_console =
     Inr (pdb_console\<lparr>buffer := buffer pdb_console @ ''n'', cursor := 45\<rparr>) \<and>
   selected_line (pdb_console\<lparr>buffer := buffer pdb_console @ ''n'', cursor := 45\<rparr>) = ''n'' \<and>
   strip ''n'' = ''n'' \<and> history pdb_console = [] \<and>
   press_keys (map Key_Text ''n'' @ [Key_Return]) pdb_console =
     Inr \<lparr>buffer = ''(pdb) '' @ [newline] @ ''[Running script: python -m pdb a.py]'' @ [newline]
                   @ ''n'' @ [newline] @ ''(pdb) '',
          cursor = 52, read_only = False, prompt = ''(pdb) '', current_line_start_pos = 52,
          history = [], history_index = - 1, command_entered = [[]]\<rparr> \<and>
   press_keys (map Key_Text ''continue'') pdb_console =
     Inr (pdb_console\<lparr>buffer := buffer pdb_console @ ''continue'', cursor := 52\<rparr>) \<and>
   selected_line (pdb_console\<lparr>buffer := buffer pdb_console @ ''continue'', cursor := 52\<rparr>)
     = ''continue'' \<and>
   strip ''continue'' = ''continue'' \<and>
   press_keys (map Key_Text ''continue'' @ [Key_Return]) pdb_console =
     Inr \<lparr>buffer = ''(pdb) '' @ [newline] @ ''[Running script: python -m pdb a.py]'' @ [newline]
                   @ ''continue'' @ [newline] @ ''(pdb) '',
          cursor = 59, read_only = False, prompt = ''(pdb) '', current_line_start_pos = 59,
          history = [''ue''], history_index = - 1, command_entered = [''ue'']\<rparr> \<and>
   press_keys (map Key_Text ''continue'' @ [Key_Return]) pdb_prompt_console =
     Inr (handle_command_entry (appendPlainText ''continue'' pdb_prompt_console)) \<and>
   history pdb_second_run = [''continue''] \<and>
   press_keys (map Key_Text ''continue'') pdb_second_run =
     Inr (pdb_second_run\<lparr>buffer := buffer pdb_second_run @ ''continue'', cursor := 52\<rparr>) \<and>
   selected_line (pdb_second_run\<lparr>buffer := buffer pdb_second_run @ ''continue'', cursor := 52\<rparr>)
     = ''continue'' \<and>
   (case press_keys (map Key_Text ''continue'' @ [Key_Return]) pdb_second_run of
      Inl err \<Rightarrow> False
    | Inr c' \<Rightarrow> history c' = [''ue'', ''continue''] \<and>
               length (history c') = length (history pdb_second_run) + 1)"
  by code_simp

text \<open>
  Claim C6 does not hold of the code, by the same cut of \<open>len(prompt)\<close> characters off the
  stripped line. The handler strips before it cuts: with the prompt \<open> > \<close> and the line
  \<open> > ls\<close> the command is \<open>s\<close>, not \<open>ls\<close>. And on a line without the prompt, as the
  last line of the console after a script has finished, Return emits and stores the line
  without its first four characters.
\<close>

theorem enter_not_prompt_prefix:
  "selected_line (restrict_cursor blank_prompt_console) = prompt blank_prompt_console @ ''ls'' \<and>
   entered_command (restrict_cursor blank_prompt_console) \<noteq> strip ''ls'' \<and>
   keyPressEvent Key_Return blank_prompt_console =
     Inr \<lparr>buffer = '' > ls'' @ [newline] @ '' > '', cursor = 9, read_only = False,
          prompt = '' > '', current_line_start_pos = 9, history = [''s''],
          history_index = - 1, command_entered = [''s'']\<rparr> \<and>
   selected_line (restrict_cursor finished_console) = ''[Script finished with exit code 0]'' \<and>
   prompt finished_console = ''>>> '' \<and>
   (case keyPressEvent Key_Return finished_console of
      Inl err \<Rightarrow> False
    | Inr c' \<Rightarrow> command_entered c' = [''ipt finished with exit code 0]''] \<and>
               history c' = [''ipt finished with exit code 0]''])"
  by code_simp

lemma keyPressEvent_keeps_stripped:
  assumes "\<forall>h\<in>set (history c). h \<noteq> [] \<and> strip h = h"
    and "keyPressEvent k c = Inr c'"
  shows "\<forall>h\<in>set (history c'). h \<noteq> [] \<and> strip h = h"
proof
  fix h assume h: "h \<in> set (history c')"
  show "h \<noteq> [] \<and> strip h = h"
  proof (cases "h \<in> set (history c)")
    case True
    with assms(1) show ?thesis by blast
  next
    case False
    with h keyPressEvent_history [OF assms(2)]
    have "h = entered_command (restrict_cursor c)" "h \<noteq> []" by auto
    then show ?thesis
      by (simp add: entered_command_def strip_idem)
  qed
qed

lemma press_keys_keeps_stripped:
  assumes "\<forall>h\<in>set (history c). h \<noteq> [] \<and> strip h = h"
    and "press_keys ks c = Inr c'"
  shows "\<forall>h\<in>set (history c'). h \<noteq> [] \<and> strip h = h"
  using assms
proof (induction ks arbitrary: c)
  case Nil
  then show ?case by simp
next
  case (Cons k ks)
  from Cons.prems(2) obtain c1 where
    1: "keyPressEvent k c = Inr c1" and 2: "press_keys ks c1 = Inr c'"
    by (auto split: sum.splits)
  from keyPressEvent_keeps_stripped [OF Cons.prems(1) 1] 2
  show ?case by (rule Cons.IH)
qed

text \<open>
  Claim C10. If every history entry is non-empty and equal to its own stripped form, the
  same holds after any key event, and so after any sequence of key events; no entry then
  begins or ends with whitespace. The history of a new console is empty, so the entries of
  every console reached from it by key events are of that form.
\<close>

theorem history_entries_stripped:
  assumes "\<forall>h\<in>set (history c). h \<noteq> [] \<and> strip h = h"
  shows "(keyPressEvent k c = Inr c' \<longrightarrow>
            (\<forall>h\<in>set (history c').
               h \<noteq> [] \<and> strip h = h \<and> \<not> isspace (hd h) \<and> \<not> isspace (last h))) \<and>
         (press_keys ks c = Inr c'' \<longrightarrow>
            (\<forall>h\<in>set (history c'').
               h \<noteq> [] \<and> strip h = h \<and> \<not> isspace (hd h) \<and> \<not> isspace (last h))) \<and>
         (press_keys ks console_init = Inr c'' \<longrightarrow>
            (\<forall>h\<in>set (history c'').
               h \<noteq> [] \<and> strip h = h \<and> \<not> isspace (hd h) \<and> \<not> isspace (last h)))"
proof -
  have e: "\<not> isspace (hd h) \<and> \<not> isspace (last h)" if "h \<noteq> [] \<and> strip h = h" for h
    using that strip_ends [of h] by simp
  have i: "\<forall>h\<in>set (history console_init). h \<noteq> [] \<and> strip h = h"
    by (simp add: console_init_def Let_def)
  show ?thesis
    using keyPressEvent_keeps_stripped [OF assms, of k c']
      press_keys_keeps_stripped [OF assms, of ks c'']
      press_keys_keeps_stripped [OF i, of ks c''] e
    by blast
qed

theorem history_entries_stripped_witness:
  "history (ls_console\<lparr>history := [''cd'']\<rparr>) = [''cd''] \<and> strip ''cd'' = ''cd'' \<and>
   keyPressEvent Key_Return (ls_console\<lparr>history := [''cd'']\<rparr>) =
     Inr (handle_command_entry (ls_console\<lparr>history := [''cd'']\<rparr>)) \<and>
   press_keys [Key_Return] (ls_console\<lparr>history := [''cd'']\<rparr>) =
     Inr (handle_command_entry (ls_console\<lparr>history := [''cd'']\<rparr>)) \<and>
   history (handle_command_entry (ls_console\<lparr>history := [''cd'']\<rparr>)) = [''ls'', ''cd''] \<and>
   strip ''ls'' = ''ls'' \<and> \<not> isspace (hd ''ls'') \<and> \<not> isspace (last ''ls'') \<and>
   \<not> isspace (hd ''cd'') \<and> \<not> isspace (last ''cd'')"
proof -
  let ?c = "ls_console\<lparr>history := [''cd'']\<rparr>"
  have s: "strip ''cd'' = ''cd''" by code_simp
  have k: "keyPressEvent Key_Return ?c = Inr (handle_command_entry ?c)" by code_simp
  have ks: "press_keys [Key_Return] ?c = Inr (handle_command_entry ?c)" by (simp add: k)
  have h: "history (handle_command_entry ?c) = [''ls'', ''cd'']" by code_simp
  have a: "\<forall>h\<in>set (history ?c). h \<noteq> [] \<and> strip h = h" by (simp add: s)
  show ?thesis
    using history_entries_stripped [OF a, of Key_Return "handle_command_entry ?c" "[Key_Return]"
        "handle_command_entry ?c"] k ks h s
    by simp
qed

section \<open>History navigation\<close>

lemma nav_result:
  assumes h: "history c \<noteq> []"
    and lo: "- 1 \<le> history_index c"
    and hi: "history_index c \<le> int (length (history c)) - 1"
    and k: "k = Key_Up \<or> k = Key_Down"
    and i: "i = (if k = Key_Up
               then (if history_index c < int (length (history c)) - 1
                     then history_index c + 1 else history_index c)
               else (if history_index c > 0 then history_index c - 1 else - 1))"
    and entry: "entry = (if i = - 1 then [] else history c ! nat i)"
    and s: "s = start_of_line (buffer c) (cursor c)"
    and e: "e = end_of_line (buffer c) s"
  shows "\<exists>c'. handle_history_navigation k c = Inr c' \<and>
           buffer c' = insert_at (s + length (document_text (prompt c))) (document_text entry)
                         (insert_at s (document_text (prompt c)) (remove_range s e (buffer c))) \<and>
           cursor c' = s + length (document_text (prompt c)) + length (document_text entry) \<and>
           history_index c' = i \<and> history c' = history c \<and> prompt c' = prompt c \<and>
           current_line_start_pos c' = current_line_start_pos c \<and>
           read_only c' = read_only c \<and> command_entered c' = command_entered c"
proof -
  have n: "insert_at p [] b = b" for p :: nat and b by (simp add: insert_at_def)
  show ?thesis
    using h lo hi k unfolding i entry s e
    by (auto simp: handle_history_navigation_def Let_def py_index_def insertPlainText_def n)
qed

lemma replace_line_buffer:
  assumes "s \<le> length b" "s \<le> e"
  shows "insert_at (s + length p) h (insert_at s p (remove_range s e b)) =
         take s b @ p @ h @ drop e b"
  using assms by (simp add: insert_at_def remove_range_def min_def)

lemma key_up_step:
  assumes lo: "- 1 \<le> history_index c"
    and hi: "history_index c \<le> int (length (history c)) - 1"
  shows "\<exists>c'. keyPressEvent Key_Up c = Inr c' \<and> history c' = history c \<and>
           history_index c' = min (history_index c + 1) (int (length (history c)) - 1)"
proof (cases "history c = []")
  case True
  then have "keyPressEvent Key_Up c = Inr (restrict_cursor c)"
    by (simp add: keyPressEvent_nav handle_history_navigation_def restrict_cursor_fields)
  moreover have "history_index c = - 1" using True lo hi by simp
  ultimately show ?thesis using True by (simp add: restrict_cursor_fields)
next
  case False
  let ?g = "restrict_cursor c"
  have g: "history ?g \<noteq> []" "- 1 \<le> history_index ?g"
    "history_index ?g \<le> int (length (history ?g)) - 1"
    using False lo hi by (simp_all add: restrict_cursor_fields)
  from nav_result [OF g, of Key_Up, OF _ refl refl refl refl]
  obtain c' where "handle_history_navigation Key_Up ?g = Inr c'"
    "history c' = history ?g"
    "history_index c' = (if history_index ?g < int (length (history ?g)) - 1
                         then history_index ?g + 1 else history_index ?g)"
    by auto
  then show ?thesis
    using hi by (auto simp: keyPressEvent_nav restrict_cursor_fields)
qed

text \<open>
  Claim C4. From a history index between -1 and the last index, any number of Up presses
  returns normally, leaves the history as it is and the index at most the last index; the
  index is the start plus the number of presses, cut at the last index, so it stays at the
  last index once there are as many presses as history entries.
\<close>

theorem up_saturates:
  assumes "- 1 \<le> history_index c"
    and "history_index c \<le> int (length (history c)) - 1"
  shows "\<exists>c'. press_keys (replicate n Key_Up) c = Inr c' \<and>
           history c' = history c \<and>
           history_index c' = min (history_index c + int n) (int (length (history c)) - 1) \<and>
           history_index c' \<le> int (length (history c)) - 1 \<and>
           (length (history c) \<le> n \<longrightarrow> history_index c' = int (length (history c)) - 1)"
  using assms
proof (induction n arbitrary: c)
  case 0
  then show ?case by auto
next
  case (Suc n)
  from key_up_step [OF Suc.prems] obtain c1 where
    s: "keyPressEvent Key_Up c = Inr c1" "history c1 = history c"
       "history_index c1 = min (history_index c + 1) (int (length (history c)) - 1)"
    by blast
  have "- 1 \<le> history_index c1" "history_index c1 \<le> int (length (history c1)) - 1"
    using s Suc.prems by simp_all
  from Suc.IH [OF this] obtain c' where
    r: "press_keys (replicate n Key_Up) c1 = Inr c'" "history c' = history c1"
       "history_index c' = min (history_index c1 + int n) (int (length (history c1)) - 1)"
    by blast
  have "press_keys (replicate (Suc n) Key_Up) c = Inr c'"
    using s(1) r(1) by simp
  moreover have "history c' = history c" using r(2) s(2) by simp
  moreover have "history_index c' = min (history_index c + int (Suc n)) (int (length (history c)) - 1)"
    using r(3) s(2,3) by simp
  ultimately show ?case using Suc.prems by auto
qed

theorem up_saturates_witness:
  "- 1 \<le> history_index foo_console \<and>
   history_index foo_console \<le> int (length (history foo_console)) - 1 \<and>
   length (history foo_console) \<le> 3 \<and>
   (\<exists>c'. press_keys (replicate 3 Key_Up) foo_console = Inr c' \<and>
         history c' = [''foo''] \<and> history_index c' = 0)"
proof -
  have f: "history_index foo_console = - 1" "history foo_console = [''foo'']"
    by code_simp+
  show ?thesis
    using up_saturates [of foo_console 3] by (auto simp: f)
qed

text \<open>
  On an input line, Up and Down do what claim C5 says: the index moves by one inside its
  range, the text before \<open>current_line_start_pos\<close> stays and the text after it becomes the
  history entry at the new index, or nothing at index -1. The example of the claim, with
  the history \<open>["foo"]\<close>, is such a console.
\<close>

lemma navigation_on_input_line:
  assumes il: "input_line c"
    and h: "history c \<noteq> []"
    and lo: "- 1 \<le> history_index c"
    and hi: "history_index c \<le> int (length (history c)) - 1"
    and k: "k = Key_Up \<or> k = Key_Down"
  shows "\<exists>c'. keyPressEvent k c = Inr c' \<and>
          (let i = (if k = Key_Up
                    then (if history_index c < int (length (history c)) - 1
                          then history_index c + 1 else history_index c)
                    else (if history_index c > 0 then history_index c - 1 else - 1));
               entry = (if i = - 1 then [] else history c ! nat i)
           in history_index c' = i \<and> - 1 \<le> i \<and> i \<le> int (length (history c)) - 1 \<and>
              history c' = history c \<and>
              current_line_start_pos c' = current_line_start_pos c \<and>
              take (current_line_start_pos c) (buffer c') =
                take (current_line_start_pos c) (buffer c) \<and>
              drop (current_line_start_pos c) (buffer c') = document_text entry \<and>
              cursor c' = length (buffer c'))"
proof -
  let ?g = "restrict_cursor c"
  let ?L = "current_line_start_pos c"
  let ?b = "buffer c"
  define i where "i = (if k = Key_Up
                    then (if history_index c < int (length (history c)) - 1
                          then history_index c + 1 else history_index c)
                    else (if history_index c > 0 then history_index c - 1 else - 1))"
  define entry where "entry = (if i = - 1 then [] else history c ! nat i)"
  define s where "s = ?L - length (prompt c)"
  note r = input_line_restricted [OF il]
  have s1: "start_of_line (buffer ?g) (cursor ?g) = s"
    and e1: "end_of_line (buffer ?g) s = length ?b"
    using input_line_bounds [OF il r] unfolding s_def by (simp_all add: restrict_cursor_fields)
  have n: "length (prompt c) \<le> ?L" and l: "?L \<le> length ?b"
    and t: "take (length (prompt c)) (drop s ?b) = prompt c"
    and cr: "carriage_return \<notin> set (prompt c)"
    using il unfolding s_def by (simp_all add: input_line_def Let_def)
  have dp: "document_text (prompt c) = prompt c"
    using cr by (rule document_text_id)
  have g: "history ?g \<noteq> []" "- 1 \<le> history_index ?g"
    "history_index ?g \<le> int (length (history ?g)) - 1"
    using h lo hi by (simp_all add: restrict_cursor_fields)
  have i': "i = (if k = Key_Up
               then (if history_index ?g < int (length (history ?g)) - 1
                     then history_index ?g + 1 else history_index ?g)
               else (if history_index ?g > 0 then history_index ?g - 1 else - 1))"
    by (simp add: i_def restrict_cursor_fields)
  have entry': "entry = (if i = - 1 then [] else history ?g ! nat i)"
    by (simp add: entry_def restrict_cursor_fields)
  from nav_result [OF g k i' entry' s1 [symmetric] e1 [symmetric]]
  obtain c' where c': "handle_history_navigation k ?g = Inr c'"
    "buffer c' = insert_at (s + length (prompt c)) (document_text entry)
                   (insert_at s (prompt c) (remove_range s (length ?b) ?b))"
    "cursor c' = s + length (prompt c) + length (document_text entry)"
    "history_index c' = i" "history c' = history c"
    "current_line_start_pos c' = ?L"
    by (auto simp: restrict_cursor_fields dp)
  have sl: "s \<le> length ?b" "s \<le> length ?b" "s + length (prompt c) = ?L"
    using n l unfolding s_def by simp_all
  have "take s ?b @ prompt c = take s ?b @ take (length (prompt c)) (drop s ?b)"
    using t by simp
  also have "\<dots> = take ?L ?b"
    unfolding sl(3) [symmetric] by (simp add: take_add)
  finally have tp: "take s ?b @ prompt c = take ?L ?b" .
  have "buffer c' = take s ?b @ prompt c @ document_text entry @ drop (length ?b) ?b"
    using c'(2) replace_line_buffer [OF sl(1,2)] by simp
  then have b: "buffer c' = take ?L ?b @ document_text entry"
    using tp by simp
  have len: "length (take ?L ?b) = ?L" using l by simp
  have 1: "take ?L (buffer c') = take ?L ?b" "drop ?L (buffer c') = document_text entry"
    unfolding b using len by simp_all
  have 2: "cursor c' = length (buffer c')"
    unfolding b c'(3) using len sl(3) by simp
  have rg: "- 1 \<le> i \<and> i \<le> int (length (history c)) - 1"
    using lo hi h unfolding i_def by auto
  have "keyPressEvent k c = Inr c'"
    using c'(1) k by (simp add: keyPressEvent_nav)
  then show ?thesis
    using c'(4,5,6) 1 2 rg
    unfolding Let_def i_def [symmetric] entry_def [symmetric]
    by auto
qed

lemma foo_example:
  "press_keys [Key_Up] foo_console =
     Inr (foo_console\<lparr>buffer := ''>>> foo'', cursor := 7, history_index := 0\<rparr>)"
  "press_keys [Key_Up, Key_Up] foo_console =
     Inr (foo_console\<lparr>buffer := ''>>> foo'', cursor := 7, history_index := 0\<rparr>)"
  "press_keys [Key_Up, Key_Up, Key_Down] foo_console =
     Inr (foo_console\<lparr>buffer := ''>>> '', cursor := 4, history_index := - 1\<rparr>)"
  "entered_command (foo_console\<lparr>buffer := ''>>> foo'', cursor := 7, history_index := 0\<rparr>) = ''foo''"
  "entered_command (foo_console\<lparr>buffer := ''>>> '', cursor := 4, history_index := - 1\<rparr>) = []"
  by code_simp+

text \<open>
  Claim C5 does not hold of the code. The handler erases and rewrites the line the cursor is
  on (its comment: "Erase current input and replace with history command"), which need not
  be the text from \<open>current_line_start_pos\<close> to the end of the buffer. In the console of a
  second run of a script, where \<open>clear()\<close> has left \<open>current_line_start_pos\<close> at 71 in a
  buffer of 66 characters, Up rewrites the last line of the output and the text from
  \<open>current_line_start_pos\<close> stays empty. In a debugger session, where the debugger's output
  has arrived after the console's prompt, Up rewrites the last output line and the text
  from \<open>current_line_start_pos\<close> is the debugger's output followed by the prompt and the
  entry, not the entry.
\<close>

theorem up_rewrites_output_line:
  "history rerun_console = [''ipt finished with exit code 0]''] \<and>
   history_index rerun_console = - 1 \<and>
   cursor rerun_console = length (buffer rerun_console) \<and>
   current_line_start_pos rerun_console = 71 \<and>
   selected_line (restrict_cursor rerun_console) = ''[Script finished with exit code 0]'' \<and>
   keyPressEvent Key_Up rerun_console =
     Inr (rerun_console
           \<lparr>buffer := [newline] @ ''[Running script: python a.py]'' @ [newline] @ [newline]
                       @ ''>>> ipt finished with exit code 0]'',
            history_index := 0\<rparr>) \<and>
   (case keyPressEvent Key_Up rerun_console of
      Inl err \<Rightarrow> False
    | Inr c' \<Rightarrow> drop (current_line_start_pos c') (buffer c') = [] \<and>
               drop (current_line_start_pos c') (buffer c') \<noteq> history c' ! nat (history_index c')) \<and>
   press_keys (map Key_Text ''next'' @ [Key_Return]) pdb_waiting =
     Inr (handle_command_entry (appendPlainText ''next'' pdb_waiting)) \<and>
   history pdb_session = [''next''] \<and> history_index pdb_session = - 1 \<and>
   cursor pdb_session = length (buffer pdb_session) \<and>
   current_line_start_pos pdb_session = 90 \<and>
   drop (current_line_start_pos pdb_session) (buffer pdb_session) =
     ''> a.py(2)<module>()'' @ [newline] @ ''-> y = 2'' @ [newline] @ ''(Pdb) '' \<and>
   selected_line (restrict_cursor pdb_session) = ''(Pdb) '' \<and>
   (case keyPressEvent Key_Up pdb_session of
      Inl err \<Rightarrow> False
    | Inr c' \<Rightarrow> history_index c' = 0 \<and> current_line_start_pos c' = 90 \<and>
               drop (current_line_start_pos c') (buffer c') =
                 ''> a.py(2)<module>()'' @ [newline] @ ''-> y = 2'' @ [newline] @ ''(pdb) next'' \<and>
               drop (current_line_start_pos c') (buffer c') \<noteq> history c' ! nat (history_index c'))"
  by code_simp

section \<open>The text before the input line\<close>

lemma nav_buffer:
  assumes "handle_history_navigation k c = Inr c'" "history c \<noteq> []"
  shows "\<exists>h. buffer c' =
           insert_at (start_of_line (buffer c) (cursor c) + length (document_text (prompt c))) h
             (insert_at (start_of_line (buffer c) (cursor c)) (document_text (prompt c))
               (remove_range (start_of_line (buffer c) (cursor c))
                 (end_of_line (buffer c) (start_of_line (buffer c) (cursor c))) (buffer c)))"
proof -
  have n: "insert_at p [] b = b" for p :: nat and b by (simp add: insert_at_def)
  have "\<exists>h. x = insert_at p h x" for x and p :: nat using n [of p x] by metis
  then show ?thesis
    using assms
    by (auto simp: handle_history_navigation_def Let_def insertPlainText_def
        split: if_splits sum.splits)
qed

text \<open>
  With the prompt in place and the cursor and \<open>current_line_start_pos\<close> inside the buffer,
  every key event leaves the text before \<open>current_line_start_pos\<close> as it is, except
  Backspace in an editable console with the cursor exactly at \<open>current_line_start_pos\<close>.
\<close>

lemma prefix_preserved:
  assumes ev: "keyPressEvent k c = Inr c'"
    and cur: "cursor c \<le> length (buffer c)"
    and ls: "current_line_start_pos c \<le> length (buffer c)"
    and pl: "k = Key_Up \<or> k = Key_Down \<Longrightarrow> prompt_in_place c"
    and bs: "k = Key_Backspace \<Longrightarrow>
               read_only c \<or> cursor (restrict_cursor c) \<noteq> current_line_start_pos c"
  shows "prefix_unchanged c c'"
proof -
  let ?g = "restrict_cursor c"
  let ?L = "current_line_start_pos c"
  let ?b = "buffer c"
  note r = restrict_cursor_range [OF cur ls]
  consider "k = Key_Up \<or> k = Key_Down" | "k = Key_Return \<or> k = Key_Enter"
    | "k \<notin> {Key_Up, Key_Down, Key_Return, Key_Enter}" by auto
  then show ?thesis
  proof cases
    case 1
    have nav: "handle_history_navigation k ?g = Inr c'"
      using ev 1 by (simp add: keyPressEvent_nav)
    show ?thesis
    proof (cases "history c = []")
      case True
      then have "c' = ?g"
        using nav by (simp add: handle_history_navigation_def restrict_cursor_fields)
      then show ?thesis
        by (simp add: restrict_cursor_fields prefix_unchanged_def)
    next
      case False
      define s where "s = start_of_line ?b (cursor ?g)"
      define e where "e = end_of_line ?b s"
      let ?dp = "document_text (prompt c)"
      from nav_buffer [OF nav] False obtain h where
        "buffer c' = insert_at (s + length ?dp) h (insert_at s ?dp (remove_range s e ?b))"
        unfolding s_def e_def by (auto simp: restrict_cursor_fields)
      moreover have sle: "s \<le> length ?b" "s \<le> e"
        using r(2) start_of_line_le [of ?b "cursor ?g"] end_of_line_ge [of s ?b]
        unfolding s_def e_def by simp_all
      ultimately have b: "buffer c' = take s ?b @ ?dp @ h @ drop e ?b"
        using replace_line_buffer by simp
      have p: "s + length (prompt c) = ?L" "take (length (prompt c)) (drop s ?b) = ?dp"
        using pl [OF 1] unfolding prompt_in_place_def s_def by (simp_all add: Let_def)
      have "length (take (length (prompt c)) (drop s ?b)) = length (prompt c)"
        using p(1) ls by simp
      then have len: "length ?dp = length (prompt c)"
        using p(2) by simp
      have "take ?L (buffer c') = take s ?b @ ?dp"
        unfolding b using sle(1) p(1) len by simp
      also have "\<dots> = take s ?b @ take (length (prompt c)) (drop s ?b)"
        using p(2) by simp
      also have "\<dots> = take ?L ?b"
        unfolding p(1) [symmetric] by (simp add: take_add)
      finally show ?thesis by (simp add: prefix_unchanged_def)
    qed
  next
    case 2
    then show ?thesis
      using ev ls
      by (auto simp: keyPressEvent_enter handle_command_entry_fields restrict_cursor_fields
          prefix_unchanged_def)
  next
    case 3
    then have c': "c' = QPlainTextEdit_keyPressEvent k ?g"
      using ev by (simp add: keyPressEvent_other)
    show ?thesis
    proof (cases "read_only c")
      case True
      then show ?thesis
        unfolding c' by (simp add: QPlainTextEdit_keyPressEvent_def restrict_cursor_fields
            prefix_unchanged_def)
    next
      case False
      then have ro: "\<not> read_only ?g" by (simp add: restrict_cursor_fields)
      show ?thesis
      proof (cases k)
        case Key_Backspace
        with bs False have "?L < cursor ?g" using r(1) by simp
        then show ?thesis
          unfolding c' using ro Key_Backspace r(2)
          by (simp add: QPlainTextEdit_keyPressEvent_def restrict_cursor_fields
              prefix_unchanged_def remove_range_def)
      next
        case Key_Delete
        then show ?thesis
          unfolding c' using ro r
          by (simp add: QPlainTextEdit_keyPressEvent_def restrict_cursor_fields
              prefix_unchanged_def remove_range_def)
      next
        case (Key_Text ch)
        then show ?thesis
          unfolding c' using ro r
          by (simp add: QPlainTextEdit_keyPressEvent_def restrict_cursor_fields
              prefix_unchanged_def insertPlainText_def insert_at_def)
      qed (use 3 ro in \<open>simp_all add: c' QPlainTextEdit_keyPressEvent_def
             restrict_cursor_fields prefix_unchanged_def\<close>)
    qed
  qed
qed

text \<open>
  Claim C1 does not hold of the code. The handler moves a cursor that is before
  \<open>current_line_start_pos\<close>, but not one that is at it, so Backspace there reaches the
  base class and deletes the last character of the prompt. In the debugger console
  (editable), after Return on the empty last line the prompt \<open>(pdb) \<close> ends at position
  51, where the cursor is; Backspace removes the blank at position 50.
\<close>

theorem backspace_deletes_prompt:
  "press_keys [Key_Return] pdb_console = Inr pdb_prompt_console \<and>
   keyPressEvent Key_Backspace pdb_prompt_console =
     Inr (pdb_prompt_console
           \<lparr>buffer := ''(pdb) '' @ [newline] @ ''[Running script: python -m pdb a.py]''
                       @ [newline] @ [newline] @ ''(pdb)'',
            cursor := 50\<rparr>) \<and>
   current_line_start_pos pdb_prompt_console = 51 \<and>
   (case keyPressEvent Key_Backspace pdb_prompt_console of
      Inl err \<Rightarrow> False
    | Inr c' \<Rightarrow> \<not> prefix_unchanged pdb_prompt_console c' \<and> length (buffer c') = 50)"
  by code_simp

text \<open>
  \<open>clear()\<close> in \<open>_run_current_script\<close> leaves \<open>current_line_start_pos\<close> as it was. After
  Return in the console of a finished script and a second run, it is 71 while the buffer has
  66 characters; Up then replaces the last line of the output, all of it before
  \<open>current_line_start_pos\<close>, with the prompt and the history entry.
\<close>

lemma up_rewrites_scrollback:
  "current_line_start_pos rerun_console = 71 \<and>
   buffer rerun_console =
     [newline] @ ''[Running script: python a.py]'' @ [newline] @ [newline]
       @ ''[Script finished with exit code 0]'' \<and>
   keyPressEvent Key_Up rerun_console =
     Inr (rerun_console
           \<lparr>buffer := [newline] @ ''[Running script: python a.py]'' @ [newline] @ [newline]
                       @ ''>>> ipt finished with exit code 0]'',
            history_index := 0\<rparr>) \<and>
   (case keyPressEvent Key_Up rerun_console of
      Inl err \<Rightarrow> False
    | Inr c' \<Rightarrow> \<not> prefix_unchanged rerun_console c')"
  by code_simp

section \<open>Recent files: properties\<close>







section \<open>Running a script: properties\<close>

text \<open>
  Claim C9. When the file does not exist, \<open>run_script\<close> returns normally: it emits one
  text on \<open>error_signal\<close>, \<open>Error: File not found at '<path>'\<close>, starts no process and
  emits nothing on \<open>output_signal\<close>. The controller connects \<open>error_signal\<close> to the
  console's \<open>appendPlainText\<close>, which puts the text at the end of the console buffer as
  the document holds it: unchanged when the path has no carriage return.
\<close>

theorem run_script_missing_file:
  assumes "\<not> file_exists file_path"
  shows "run_script file_exists executable file_path args debugger r =
           r\<lparr>error_signal := error_signal r @
                [''Error: File not found at '' @ [CHR 0x27] @ file_path @ [CHR 0x27]]\<rparr> \<and>
         started (run_script file_exists executable file_path args debugger r) = started r \<and>
         output_signal (run_script file_exists executable file_path args debugger r) =
           output_signal r \<and>
         buffer (appendPlainText
                   (last (error_signal (run_script file_exists executable file_path args debugger r)))
                   c) =
           buffer c @
           document_text (''Error: File not found at '' @ [CHR 0x27] @ file_path @ [CHR 0x27]) \<and>
         (carriage_return \<notin> set file_path \<longrightarrow>
            buffer (appendPlainText
                     (last (error_signal
                        (run_script file_exists executable file_path args debugger r)))
                     c) =
              buffer c @ ''Error: File not found at '' @ [CHR 0x27] @ file_path @ [CHR 0x27])"
proof -
  have "document_text (''Error: File not found at '' @ [CHR 0x27] @ file_path @ [CHR 0x27]) =
          ''Error: File not found at '' @ [CHR 0x27] @ file_path @ [CHR 0x27]"
    if "carriage_return \<notin> set file_path"
    using that by (intro document_text_id) (simp add: carriage_return_def)
  then show ?thesis
    using assms by (simp add: run_script_def appendPlainText_def)
qed

theorem run_script_missing_file_witness:
  "\<not> (\<lambda>f. f = ''a.py'') ''b.py'' \<and> carriage_return \<notin> set ''b.py'' \<and>
   run_script (\<lambda>f. f = ''a.py'') ''python'' ''b.py'' None False
     \<lparr>output_signal = [], error_signal = [], started = []\<rparr> =
   \<lparr>output_signal = [], error_signal = [''Error: File not found at '' @ [CHR 0x27] @ ''b.py'' @ [CHR 0x27]],
     started = []\<rparr> \<and>
   buffer (appendPlainText
             (last (error_signal
                (run_script (\<lambda>f. f = ''a.py'') ''python'' ''b.py'' None False
                   \<lparr>output_signal = [], error_signal = [], started = []\<rparr>)))
             console_init) =
     ''>>> '' @ ''Error: File not found at '' @ [CHR 0x27] @ ''b.py'' @ [CHR 0x27]"
proof -
  let ?r = "\<lparr>output_signal = [], error_signal = [], started = []\<rparr>"
  let ?run = "run_script (\<lambda>f. f = ''a.py'') ''python'' ''b.py'' None False ?r"
  have h: "\<not> (\<lambda>f. f = ''a.py'') ''b.py''" by simp
  have n: "carriage_return \<notin> set ''b.py''" by code_simp
  have b: "buffer console_init = ''>>> ''" by code_simp
  note w = run_script_missing_file [of "\<lambda>f. f = ''a.py''" "''b.py''" "''python''" None False
      ?r console_init, OF h]
  have 1: "?run = ?r\<lparr>error_signal := error_signal ?r @
               [''Error: File not found at '' @ [CHR 0x27] @ ''b.py'' @ [CHR 0x27]]\<rparr>"
    using w by blast
  have "buffer (appendPlainText (last (error_signal ?run)) console_init) =
          buffer console_init @ ''Error: File not found at '' @ [CHR 0x27] @ ''b.py'' @ [CHR 0x27]"
    using w n by blast
  then have 3: "buffer (appendPlainText (last (error_signal ?run)) console_init) =
          ''>>> '' @ ''Error: File not found at '' @ [CHR 0x27] @ ''b.py'' @ [CHR 0x27]"
    unfolding b .
  have 2: "?run = \<lparr>output_signal = [], error_signal =
              [''Error: File not found at '' @ [CHR 0x27] @ ''b.py'' @ [CHR 0x27]], started = []\<rparr>"
    unfolding 1 by simp
  show ?thesis
    using h n 2 3 by blast
qed

end
